theory Spec2Isabelle
  imports Main "HOL-Library.Multiset"
begin

section \<open>Python values used by the program\<close>

text \<open>
  Exceptions of the source become values. \<open>ValueError\<close> carries the message the source
  gives it; \<open>TypeError\<close> is what \<^verbatim>\<open>bytes(None)\<close> raises, \<open>IndexError\<close> what a list index
  out of range raises, and \<open>CollaboratorError\<close> stands for any exception raised by the
  vector store or by the language model chain.
\<close>

datatype error =
    ValueError string
  | TypeError
  | IndexError
  | CollaboratorError string

text \<open>The separator \<^verbatim>\<open>"\n\n"\<close> and the single newline of the source.\<close>

definition nl :: string where
  "nl = [CHR 0x0A]"

definition nlnl :: string where
  "nlnl = [CHR 0x0A, CHR 0x0A]"

text \<open>\<^verbatim>\<open>sep.join(xs)\<close>\<close>

fun join :: "string \<Rightarrow> string list \<Rightarrow> string" where
  "join sep [] = []"
| "join sep [x] = x"
| "join sep (x # y # ys) = x @ sep @ join sep (y # ys)"

text \<open>
  \<^verbatim>\<open>xs[i]\<close>: a negative index counts from the end, and an index outside
  \<open>-len \<le> i < len\<close> raises IndexError.
\<close>

definition py_index :: "'a list \<Rightarrow> int \<Rightarrow> error + 'a" where
  "py_index xs i =
     (if 0 \<le> i \<and> i < int (length xs) then Inr (xs ! nat i)
      else if i < 0 \<and> - int (length xs) \<le> i then Inr (xs ! nat (int (length xs) + i))
      else Inl IndexError)"

text \<open>
  \<^verbatim>\<open>xs[:n]\<close>: a slice never raises; a negative bound counts from the end and every
  bound is clipped to the list.
\<close>

definition slice_to :: "'a list \<Rightarrow> int \<Rightarrow> 'a list" where
  "slice_to xs n =
     (if n < 0 then take (nat (int (length xs) + n)) xs else take (nat n) xs)"

section \<open>knowledge\_manager.py\<close>

text \<open>A langchain \<open>Document\<close>: its text and its metadata.\<close>

record document =
  page_content :: string
  metadata :: "(string \<times> string) list"

subsection \<open>format\_messages\<close>

text \<open>
  \<open>cleaned_msgs\<close> is a \<^verbatim>\<open>List[Union[str, Tuple[str, str]]]\<close>: in \<open>human_only\<close> mode
  the loop appends the formatted human line, otherwise the pair of formatted lines.
\<close>

datatype cleaned_msg =
    HumanLine string
  | PairLines string string

text \<open>
  The \<^verbatim>\<open>for\<close> loop of \<open>format_messages\<close>, with its two loop variables \<open>tokens_used\<close> and
  \<open>cleaned_msgs\<close>. \<^verbatim>\<open>break\<close> leaves the loop with the messages collected so far.
  \<open>get_num_tokens\<close> is the token counter of the language model.
\<close>

fun format_messages_loop ::
  "(string \<Rightarrow> int) \<Rightarrow> bool \<Rightarrow> string \<Rightarrow> int \<Rightarrow> (string \<times> string) list \<Rightarrow> int \<Rightarrow>
     cleaned_msg list \<Rightarrow> cleaned_msg list" where
  "format_messages_loop get_num_tokens human_only ai_name tokens_limit [] tokens_used cleaned_msgs =
     cleaned_msgs"
| "format_messages_loop get_num_tokens human_only ai_name tokens_limit ((human_msg, ai_msg) # rest)
       tokens_used cleaned_msgs =
     (let human_msg_formatted = ''Human: '' @ human_msg;
          ai_msg_formatted = ai_name @ '': '' @ ai_msg;
          human_tokens = get_num_tokens human_msg_formatted;
          ai_tokens = get_num_tokens ai_msg_formatted;
          new_tokens_used =
            (if \<not> human_only then tokens_used + human_tokens + ai_tokens
             else tokens_used + human_tokens)
      in if new_tokens_used > tokens_limit then cleaned_msgs
         else format_messages_loop get_num_tokens human_only ai_name tokens_limit rest
                new_tokens_used
                (cleaned_msgs @
                   [if human_only then HumanLine human_msg_formatted
                    else PairLines human_msg_formatted ai_msg_formatted]))"

text \<open>
  The two \<^verbatim>\<open>join\<close>s that end \<open>format_messages\<close>. The loop only produces \<open>HumanLine\<close> in
  \<open>human_only\<close> mode and only \<open>PairLines\<close> otherwise (lemma \<open>format_messages_loop_shape\<close>), so
  the second equation of each function is never reached from \<open>format_messages\<close>.
\<close>

fun human_line :: "cleaned_msg \<Rightarrow> string" where
  "human_line (HumanLine h) = h"
| "human_line (PairLines h a) = h"

fun pair_lines :: "cleaned_msg \<Rightarrow> string" where
  "pair_lines (PairLines h a) = h @ nlnl @ a"
| "pair_lines (HumanLine h) = h"

definition format_messages ::
  "(string \<times> string) list \<Rightarrow> int \<Rightarrow> (string \<Rightarrow> int) \<Rightarrow> bool \<Rightarrow> string \<Rightarrow> string" where
  "format_messages chat_history tokens_limit get_num_tokens human_only ai_name =
     (let cleaned_msgs =
            format_messages_loop get_num_tokens human_only ai_name tokens_limit chat_history 0 []
      in if human_only then join nlnl (map human_line cleaned_msgs)
         else join nlnl (map pair_lines cleaned_msgs))"

subsection \<open>\_reduce\_tokens\_below\_limit\<close>

text \<open>
  The \<^verbatim>\<open>while\<close> loop: \<open>num_docs\<close> is decremented first and then used as an index into
  \<open>tokens\<close>, so an index below \<open>-len(tokens)\<close> raises IndexError.
\<close>

function reduce_loop :: "int list \<Rightarrow> int \<Rightarrow> int \<Rightarrow> int \<Rightarrow> error + int" where
  "reduce_loop tokens docs_limit num_docs token_count =
     (if token_count > docs_limit then
        (case py_index tokens (num_docs - 1) of
           Inl e \<Rightarrow> Inl e
         | Inr t \<Rightarrow> reduce_loop tokens docs_limit (num_docs - 1) (token_count - t))
      else Inr num_docs)"
  by pat_completeness auto
termination
proof (relation "measure (\<lambda>(tokens, docs_limit, num_docs, token_count).
                    nat (num_docs + int (length tokens)))")
  show "wf (measure (\<lambda>(tokens :: int list, docs_limit :: int, num_docs :: int, token_count :: int).
              nat (num_docs + int (length tokens))))"
    by simp
next
  fix tokens :: "int list" and docs_limit num_docs token_count t :: int
  assume "py_index tokens (num_docs - 1) = Inr t"
  then have "- int (length tokens) \<le> num_docs - 1"
    by (auto simp: py_index_def split: if_splits)
  then show "((tokens, docs_limit, num_docs - 1, token_count - t),
              (tokens, docs_limit, num_docs, token_count))
             \<in> measure (\<lambda>(tokens, docs_limit, num_docs, token_count).
                  nat (num_docs + int (length tokens)))"
    by simp
qed

declare reduce_loop.simps [simp del]

definition reduce_tokens_below_limit ::
  "document list \<Rightarrow> int \<Rightarrow> (string \<Rightarrow> int) \<Rightarrow> error + document list" where
  "reduce_tokens_below_limit docs docs_limit get_num_tokens =
     (let num_docs = int (length docs);
          tokens = map (\<lambda>doc. get_num_tokens (page_content doc)) docs;
          token_count = sum_list (slice_to tokens num_docs)
      in case reduce_loop tokens docs_limit num_docs token_count of
           Inl e \<Rightarrow> Inl e
         | Inr n \<Rightarrow> Inr (slice_to docs n))"

text \<open>The token cost of a sequence of passages: the sum of the costs of their texts.\<close>

definition doc_tokens :: "(string \<Rightarrow> int) \<Rightarrow> document list \<Rightarrow> int" where
  "doc_tokens get_num_tokens docs = (\<Sum>doc\<leftarrow>docs. get_num_tokens (page_content doc))"

subsection \<open>What the specification says about format\_messages\<close>

text \<open>
  The cost of including one pair: the cost of the formatted human line and, unless
  \<open>human_only\<close>, of the formatted assistant line.
\<close>

fun pair_tokens :: "(string \<Rightarrow> int) \<Rightarrow> bool \<Rightarrow> string \<Rightarrow> string \<times> string \<Rightarrow> int" where
  "pair_tokens get_num_tokens human_only ai_name (human_msg, ai_msg) =
     (if human_only then get_num_tokens (''Human: '' @ human_msg)
      else get_num_tokens (''Human: '' @ human_msg) + get_num_tokens (ai_name @ '': '' @ ai_msg))"

definition history_tokens ::
  "(string \<Rightarrow> int) \<Rightarrow> bool \<Rightarrow> string \<Rightarrow> (string \<times> string) list \<Rightarrow> int" where
  "history_tokens get_num_tokens human_only ai_name pairs =
     sum_list (map (pair_tokens get_num_tokens human_only ai_name) pairs)"

text \<open>What one accepted pair contributes to \<open>cleaned_msgs\<close>.\<close>

fun clean_pair :: "bool \<Rightarrow> string \<Rightarrow> string \<times> string \<Rightarrow> cleaned_msg" where
  "clean_pair human_only ai_name (human_msg, ai_msg) =
     (if human_only then HumanLine (''Human: '' @ human_msg)
      else PairLines (''Human: '' @ human_msg) (ai_name @ '': '' @ ai_msg))"

text \<open>
  The accepted pairs concatenated with blank-line separators, in their order; in
  \<open>human_only\<close> mode only the human line of each pair.
\<close>

fun pair_text :: "bool \<Rightarrow> string \<Rightarrow> string \<times> string \<Rightarrow> string" where
  "pair_text human_only ai_name (human_msg, ai_msg) =
     (if human_only then ''Human: '' @ human_msg
      else (''Human: '' @ human_msg) @ nlnl @ (ai_name @ '': '' @ ai_msg))"

definition serialize_pairs :: "bool \<Rightarrow> string \<Rightarrow> (string \<times> string) list \<Rightarrow> string" where
  "serialize_pairs human_only ai_name pairs = join nlnl (map (pair_text human_only ai_name) pairs)"

subsection \<open>chat\<close>

text \<open>
  The fields of \<open>KnowledgeManager\<close> that a turn reads, with its collaborators as functions:
  the token counter of the language model, the similarity search of the vector store
  (query and collection name) and the run of the model chain (question, conversation and
  help data of the prompt). The two calls to external services may raise. The number of
  results and the metadata filter that \<open>query_data\<close> hands on to the search are part of
  the search function here.
\<close>

record knowledge_manager =
  conversattion_limit :: int
  docs_limit :: int
  llm_get_num_tokens :: "string \<Rightarrow> int"
  vectorstore_similarity_search :: "string \<Rightarrow> string \<Rightarrow> error + document list"
  chain_arun :: "string \<Rightarrow> string \<Rightarrow> string \<Rightarrow> error + string"

definition query_data :: "knowledge_manager \<Rightarrow> string \<Rightarrow> string \<Rightarrow> error + document list" where
  "query_data km query collection_name = vectorstore_similarity_search km query collection_name"

definition chat ::
  "knowledge_manager \<Rightarrow> string \<Rightarrow> (string \<times> string) list \<Rightarrow> string \<Rightarrow> error + string" where
  "chat km query chat_history collection_name =
     (let conversation =
            format_messages chat_history (conversattion_limit km) (llm_get_num_tokens km)
              False ''AgritechAI'';
          combined =
            format_messages chat_history (conversattion_limit km) (llm_get_num_tokens km)
              True ''AgritechAI'' @ nl @ ''Human: '' @ query
      in case query_data km combined collection_name of
           Inl e \<Rightarrow> Inl e
         | Inr docs \<Rightarrow>
             (case reduce_tokens_below_limit docs (docs_limit km) (llm_get_num_tokens km) of
                Inl e \<Rightarrow> Inl e
              | Inr docs' \<Rightarrow>
                  chain_arun km query conversation (join nlnl (map page_content docs'))))"

section \<open>database.py\<close>

subsection \<open>ChatManager\<close>

text \<open>A row of the \<open>ChatMessage\<close> table; the table is the list of its rows in insertion order.\<close>

record chat_message =
  ai_message :: string
  human_message :: string
  sequence_number :: int
  namespace :: string

type_synonym chat_table = "chat_message list"

text \<open>\<^verbatim>\<open>.first()\<close> of a query: its first row, or None.\<close>

fun first_row :: "'a list \<Rightarrow> 'a option" where
  "first_row [] = None"
| "first_row (x # xs) = Some x"

text \<open>\<^verbatim>\<open>select().where(namespace == ns)\<close>: the rows of one namespace.\<close>

definition select_namespace :: "chat_table \<Rightarrow> string \<Rightarrow> chat_message list" where
  "select_namespace db ns = filter (\<lambda>m. namespace m = ns) db"

text \<open>
  \<^verbatim>\<open>select().where(namespace == ns).order_by(sequence_number.desc()).first()\<close>: a row of
  the namespace with the greatest sequence number. Which of several rows with the same
  sequence number comes first is left open by the database; the model takes the
  earliest inserted, and \<open>add_message\<close> only reads the number.
\<close>

definition last_message :: "chat_table \<Rightarrow> string \<Rightarrow> chat_message option" where
  "last_message db ns =
     first_row (sort_key (\<lambda>m. - sequence_number m) (select_namespace db ns))"

definition add_message :: "chat_table \<Rightarrow> string \<Rightarrow> string \<Rightarrow> string \<Rightarrow> chat_table" where
  "add_message db ns ai human =
     (let sequence_number =
            (case last_message db ns of
               None \<Rightarrow> 0
             | Some m \<Rightarrow> sequence_number m + 1)
      in db @ [\<lparr>ai_message = ai, human_message = human,
                sequence_number = sequence_number, namespace = ns\<rparr>])"

definition message_pair :: "chat_message \<Rightarrow> string \<times> string" where
  "message_pair row = (human_message row, ai_message row)"

definition retrieve_all_messages :: "chat_table \<Rightarrow> string \<Rightarrow> (string \<times> string) list" where
  "retrieve_all_messages db ns =
     map message_pair (sort_key sequence_number (select_namespace db ns))"

text \<open>
  A single writer performing appends one after another; a turn is the namespace, the
  assistant text and the human text given to \<open>add_message\<close>.
\<close>

fun append_all :: "chat_table \<Rightarrow> (string \<times> string \<times> string) list \<Rightarrow> chat_table" where
  "append_all db [] = db"
| "append_all db ((ns, ai, human) # turns) = append_all (add_message db ns ai human) turns"

text \<open>The turns of a list that go to one namespace, in their order.\<close>

definition turns_of :: "(string \<times> string \<times> string) list \<Rightarrow> string \<Rightarrow> (string \<times> string \<times> string) list" where
  "turns_of turns ns = filter (\<lambda>turn. fst turn = ns) turns"

text \<open>The row that the \<open>i\<close>-th append to a namespace is to store, numbered from 0.\<close>

definition turn_row :: "nat \<times> string \<times> string \<times> string \<Rightarrow> chat_message" where
  "turn_row it =
     \<lparr>ai_message = fst (snd (snd it)), human_message = snd (snd (snd it)),
      sequence_number = int (fst it), namespace = fst (snd it)\<rparr>"

text \<open>
  The next sequence number in the words of the specification: \<open>1 + max\<close> over the rows
  of the namespace, or 0 if there are none.
\<close>

definition next_sequence_number :: "chat_table \<Rightarrow> string \<Rightarrow> int" where
  "next_sequence_number db ns =
     (if select_namespace db ns = [] then 0
      else 1 + Max (sequence_number ` set (select_namespace db ns)))"

subsection \<open>FileDBManager\<close>

text \<open>
  \<open>FileModel\<close>, the pydantic record, and a row of the \<open>File\<close> table. The optional
  fields are None or a value; \<^verbatim>\<open>bytes\<close> is a list of bytes. The table has no unique index on
  the filename; it is the list of its rows in insertion order.
\<close>

record file_model =
  filename :: string
  description :: "string option"
  filetype :: "string option"
  vector_ids :: "string list"
  file_content :: "string option"
  file_bytes :: "string option"

record file_row =
  row_filename :: string
  row_filetype :: "string option"
  row_vector_ids :: "string list"
  row_file_content :: "string option"
  row_file_bytes :: "string option"
  row_description :: "string option"

type_synonym file_table = "file_row list"

text \<open>\<^verbatim>\<open>bytes(x)\<close>: a copy of a bytes value; \<^verbatim>\<open>bytes(None)\<close> raises TypeError.\<close>

fun py_bytes :: "string option \<Rightarrow> error + string" where
  "py_bytes None = Inl TypeError"
| "py_bytes (Some b) = Inr b"

definition file_to_pydantic :: "file_row \<Rightarrow> error + file_model" where
  "file_to_pydantic file =
     (case py_bytes (row_file_bytes file) of
        Inl e \<Rightarrow> Inl e
      | Inr b \<Rightarrow>
          Inr \<lparr>filename = row_filename file,
               description = row_description file,
               filetype = row_filetype file,
               vector_ids = row_vector_ids file,
               file_content = row_file_content file,
               file_bytes = Some b\<rparr>)"

definition pydantic_to_file :: "file_model \<Rightarrow> file_row" where
  "pydantic_to_file fm =
     \<lparr>row_filename = filename fm,
      row_filetype = filetype fm,
      row_vector_ids = vector_ids fm,
      row_file_content = file_content fm,
      row_file_bytes = file_bytes fm,
      row_description = description fm\<rparr>"

text \<open>\<^verbatim>\<open>select().where(filename == name)\<close>: the rows with one filename.\<close>

definition select_filename :: "file_table \<Rightarrow> string \<Rightarrow> file_row list" where
  "select_filename db name = filter (\<lambda>r. row_filename r = name) db"

text \<open>
  \<open>add_file\<close>: the row is saved before \<open>file_to_pydantic\<close> runs, and the connection
  context only closes the connection, so a row saved before an exception stays saved.
\<close>

definition add_file :: "file_table \<Rightarrow> file_model \<Rightarrow> (error + file_model) \<times> file_table" where
  "add_file db fm =
     (let existing_file = first_row (select_filename db (filename fm))
      in if existing_file \<noteq> None then (Inl (ValueError ''File already exists''), db)
         else (let file = pydantic_to_file fm;
                   db' = db @ [file]
               in (file_to_pydantic file, db')))"

text \<open>\<open>get_file_by_name\<close>: only \<open>DoesNotExist\<close> is caught and turned into None.\<close>

definition get_file_by_name :: "file_table \<Rightarrow> string \<Rightarrow> error + file_model option" where
  "get_file_by_name db name =
     (case first_row (select_filename db name) of
        None \<Rightarrow> Inr None
      | Some file \<Rightarrow>
          (case file_to_pydantic file of
             Inl e \<Rightarrow> Inl e
           | Inr fm \<Rightarrow> Inr (Some fm)))"

text \<open>
  \<open>delete_file\<close>: the delete query removes every row with the filename and returns how
  many rows it removed. A \<open>FileModel\<close> object is always truthy, so \<^verbatim>\<open>not file\<close> holds
  exactly for None.
\<close>

definition delete_file :: "file_table \<Rightarrow> string \<Rightarrow> (error + int) \<times> file_table" where
  "delete_file db name =
     (case get_file_by_name db name of
        Inl e \<Rightarrow> (Inl e, db)
      | Inr None \<Rightarrow> (Inl (ValueError ''Invalid collection/file''), db)
      | Inr (Some file) \<Rightarrow>
          (Inr (int (length (select_filename db name))),
           filter (\<lambda>r. row_filename r \<noteq> name) db))"

definition delete_all :: "file_table \<Rightarrow> int \<times> file_table" where
  "delete_all db = (int (length db), [])"

definition insert_many :: "file_table \<Rightarrow> file_model list \<Rightarrow> file_table" where
  "insert_many db rows = db @ map pydantic_to_file rows"

section \<open>telegram\_bot.py\<close>

text \<open>
  \<open>AIResponder.generate_response\<close>: an exception raised by \<open>chat\<close> leaves the function
  before \<open>add_message\<close> is reached. The result is the response or the error, with the
  table after the call.
\<close>

definition generate_response ::
  "knowledge_manager \<Rightarrow> chat_table \<Rightarrow> string \<Rightarrow> string \<Rightarrow> (error + string) \<times> chat_table" where
  "generate_response km db text user_id =
     (case chat km text (retrieve_all_messages db user_id) ''data'' of
        Inl e \<Rightarrow> (Inl e, db)
      | Inr ai_response \<Rightarrow> (Inr ai_response, add_message db user_id ai_response text))"

section \<open>Concrete inputs\<close>

text \<open>A token counter that charges the same cost for every text.\<close>

definition flat_counter :: "int \<Rightarrow> string \<Rightarrow> int" where
  "flat_counter c s = c"

definition passage :: "string \<Rightarrow> document" where
  "passage s = \<lparr>page_content = s, metadata = []\<rparr>"

text \<open>Three appends by one writer, two of them to the namespace \<open>u1\<close>.\<close>

definition three_turns :: "(string \<times> string \<times> string) list" where
  "three_turns = [(''u1'', ''hello'', ''hi''), (''u2'', ''yes'', ''ok?''), (''u1'', ''bye'', ''thanks'')]"

text \<open>A table whose rows of the namespace \<open>u1\<close> are stored out of order.\<close>

definition shuffled_log :: chat_table where
  "shuffled_log =
     [\<lparr>ai_message = ''bye'', human_message = ''thanks'', sequence_number = 1, namespace = ''u1''\<rparr>,
      \<lparr>ai_message = ''yes'', human_message = ''ok?'', sequence_number = 0, namespace = ''u2''\<rparr>,
      \<lparr>ai_message = ''hello'', human_message = ''hi'', sequence_number = 0, namespace = ''u1''\<rparr>]"

text \<open>A file record with every field set, and one whose bytes payload is absent.\<close>

definition report :: file_model where
  "report = \<lparr>filename = ''report.txt'', description = Some ''soil report'',
     filetype = Some ''.txt'', vector_ids = [''1'', ''2''],
     file_content = Some ''pH 6.5'', file_bytes = Some ''pH 6.5''\<rparr>"

definition field_notes :: file_model where
  "field_notes = \<lparr>filename = ''notes.txt'', description = None, filetype = None,
     vector_ids = [], file_content = None, file_bytes = None\<rparr>"

text \<open>
  A knowledge manager whose vector store is down, and one whose vector store answers
  with a single passage while the model call fails.
\<close>

definition search_down :: "string \<Rightarrow> string \<Rightarrow> error + document list" where
  "search_down query collection_name = Inl (CollaboratorError ''vector store down'')"

definition search_one :: "string \<Rightarrow> string \<Rightarrow> error + document list" where
  "search_one query collection_name = Inr [passage ''Wheat needs nitrogen.'']"

definition model_down :: "string \<Rightarrow> string \<Rightarrow> string \<Rightarrow> error + string" where
  "model_down question conversation help_data = Inl (CollaboratorError ''model timeout'')"

definition model_echo :: "string \<Rightarrow> string \<Rightarrow> string \<Rightarrow> error + string" where
  "model_echo question conversation help_data = Inr (''You asked: '' @ question)"

definition km_search_down :: knowledge_manager where
  "km_search_down = \<lparr>conversattion_limit = 800, docs_limit = 3000,
     llm_get_num_tokens = flat_counter 10, vectorstore_similarity_search = search_down,
     chain_arun = model_echo\<rparr>"

definition km_model_down :: knowledge_manager where
  "km_model_down = \<lparr>conversattion_limit = 800, docs_limit = 3000,
     llm_get_num_tokens = flat_counter 10, vectorstore_similarity_search = search_one,
     chain_arun = model_down\<rparr>"

section \<open>Reference-passage trimming\<close>

lemma py_index_nat: "n < length xs \<Longrightarrow> py_index xs (int n) = Inr (xs ! n)"
  by (simp add: py_index_def)

lemma slice_to_nat: "slice_to xs (int n) = take n xs"
  by (simp add: slice_to_def)

lemma sum_list_take_Suc:
  "n < length (ts :: int list) \<Longrightarrow> sum_list (take (Suc n) ts) = sum_list (take n ts) + ts ! n"
  by (simp add: take_Suc_conv_app_nth)

lemma reduce_loop_stop:
  "tc \<le> D \<Longrightarrow> reduce_loop tokens D n tc = Inr n"
  by (simp add: reduce_loop.simps)

lemma reduce_loop_step:
  assumes "D < sum_list (take (Suc n) tokens)" and "n < length tokens"
  shows "reduce_loop tokens D (int (Suc n)) (sum_list (take (Suc n) tokens)) =
         reduce_loop tokens D (int n) (sum_list (take n tokens))"
proof -
  have idx: "py_index tokens (int (Suc n) - 1) = Inr (tokens ! n)"
    using assms(2) py_index_nat [of n tokens] by simp
  have "sum_list (take (Suc n) tokens) - tokens ! n = sum_list (take n tokens)"
    using assms(2) by (simp add: sum_list_take_Suc)
  then show ?thesis
    using assms(1) idx
    by (subst reduce_loop.simps) simp
qed

text \<open>
  The loop started on the whole list stops at the longest prefix that fits the budget,
  provided some prefix of length \<open>k\<close> fits: it then never indexes below 0.
\<close>

lemma reduce_loop_prefix:
  assumes "k \<le> n" and "n \<le> length tokens" and "sum_list (take k tokens) \<le> D"
  shows "\<exists>m. k \<le> m \<and> m \<le> n \<and>
           reduce_loop tokens D (int n) (sum_list (take n tokens)) = Inr (int m) \<and>
           sum_list (take m tokens) \<le> D \<and>
           (\<forall>j. m < j \<and> j \<le> n \<longrightarrow> D < sum_list (take j tokens))"
  using assms
proof (induction n)
  case 0
  then show ?case by (auto simp: reduce_loop_stop)
next
  case (Suc n)
  show ?case
  proof (cases "sum_list (take (Suc n) tokens) \<le> D")
    case True
    then have "reduce_loop tokens D (int (Suc n)) (sum_list (take (Suc n) tokens)) = Inr (int (Suc n))"
      by (rule reduce_loop_stop)
    with True Suc.prems(1) show ?thesis by auto
  next
    case False
    then have over: "D < sum_list (take (Suc n) tokens)" by simp
    have "k \<noteq> Suc n" using False Suc.prems(3) by auto
    then have kn: "k \<le> n" using Suc.prems(1) by simp
    have nl: "n < length tokens" using Suc.prems(2) by simp
    from Suc.IH [OF kn _ Suc.prems(3)] nl obtain m where
      m: "k \<le> m" "m \<le> n"
         "reduce_loop tokens D (int n) (sum_list (take n tokens)) = Inr (int m)"
         "sum_list (take m tokens) \<le> D"
         "\<forall>j. m < j \<and> j \<le> n \<longrightarrow> D < sum_list (take j tokens)"
      by auto
    have step: "reduce_loop tokens D (int (Suc n)) (sum_list (take (Suc n) tokens)) = Inr (int m)"
      using reduce_loop_step [OF over nl] m(3) by simp
    have "\<forall>j. m < j \<and> j \<le> Suc n \<longrightarrow> D < sum_list (take j tokens)"
      using m(5) over by (auto simp: le_Suc_eq)
    with m step show ?thesis by (intro exI [of _ m]) simp
  qed
qed

lemma reduce_tokens_prefix:
  assumes "k \<le> length docs" and "doc_tokens g (take k docs) \<le> D"
  shows "\<exists>m. k \<le> m \<and> m \<le> length docs \<and>
           reduce_tokens_below_limit docs D g = Inr (take m docs) \<and>
           doc_tokens g (take m docs) \<le> D \<and>
           (\<forall>j. m < j \<and> j \<le> length docs \<longrightarrow> D < doc_tokens g (take j docs))"
proof -
  define tokens where "tokens = map (\<lambda>doc. g (page_content doc)) docs"
  have tk: "doc_tokens g (take j docs) = sum_list (take j tokens)" for j
    by (simp add: doc_tokens_def tokens_def take_map)
  have len: "length tokens = length docs" by (simp add: tokens_def)
  from reduce_loop_prefix [of k "length docs" tokens D] assms obtain m where
    m: "k \<le> m" "m \<le> length docs"
       "reduce_loop tokens D (int (length docs)) (sum_list (take (length docs) tokens)) = Inr (int m)"
       "sum_list (take m tokens) \<le> D"
       "\<forall>j. m < j \<and> j \<le> length docs \<longrightarrow> D < sum_list (take j tokens)"
    by (auto simp: tk len)
  have "reduce_tokens_below_limit docs D g = Inr (take m docs)"
    using m(3) by (simp add: reduce_tokens_below_limit_def Let_def slice_to_nat tokens_def)
  with m show ?thesis by (intro exI [of _ m]) (simp add: tk)
qed


lemma doc_tokens_mono:
  assumes "\<forall>doc\<in>set docs. 0 \<le> g (page_content doc)" and "j \<le> m"
  shows "doc_tokens g (take j docs) \<le> doc_tokens g (take m docs)"
proof -
  have split: "take m docs = take j docs @ drop j (take m docs)"
    using assms(2) by (metis append_take_drop_id min.absorb1 take_take)
  have "set (drop j (take m docs)) \<subseteq> set docs"
    by (meson set_drop_subset set_take_subset subset_trans)
  then have "0 \<le> doc_tokens g (drop j (take m docs))"
    unfolding doc_tokens_def using assms(1) by (intro sum_list_nonneg) auto
  moreover have "doc_tokens g (take m docs) =
      doc_tokens g (take j docs) + doc_tokens g (drop j (take m docs))"
    by (subst split) (simp add: doc_tokens_def)
  ultimately show ?thesis by simp
qed

lemma doc_tokens_take_1:
  "docs \<noteq> [] \<Longrightarrow> doc_tokens g (take (Suc 0) docs) = g (page_content (hd docs))"
  by (cases docs) (simp_all add: doc_tokens_def)

text \<open>
  Claim C1, as stated, fails: a single passage that costs 500 tokens with budget 100 is
  dropped, and the routine returns the empty list, not the passage.
\<close>

theorem reduce_singleton_over_budget_emptied:
  "reduce_tokens_below_limit [passage ''p''] 100 (flat_counter 500) = Inr [] \<and>
   reduce_tokens_below_limit [passage ''p''] 100 (flat_counter 500) \<noteq> Inr [passage ''p'']"
  by (simp add: reduce_tokens_below_limit_def reduce_loop.simps py_index_def slice_to_def
      flat_counter_def passage_def)

text \<open>
  Claim C1, amended: for a non-empty sequence of passages with non-negative costs and a
  budget \<open>D \<ge> 0\<close>, the routine returns the longest prefix whose total cost is at most \<open>D\<close>,
  and this result is non-empty exactly when the first passage alone fits the budget.
\<close>

theorem reduce_nonempty_iff_first_fits:
  assumes "docs \<noteq> []" and "0 \<le> D" and "\<forall>doc\<in>set docs. 0 \<le> g (page_content doc)"
  shows "\<exists>m\<le>length docs.
           reduce_tokens_below_limit docs D g = Inr (take m docs) \<and>
           doc_tokens g (take m docs) \<le> D \<and>
           (\<forall>j. m < j \<and> j \<le> length docs \<longrightarrow> D < doc_tokens g (take j docs)) \<and>
           (take m docs \<noteq> [] \<longleftrightarrow> g (page_content (hd docs)) \<le> D)"
proof -
  have "doc_tokens g (take 0 docs) \<le> D"
    using assms(2) by (simp add: doc_tokens_def)
  with reduce_tokens_prefix [of 0 docs g D] obtain m where
    m: "m \<le> length docs" "reduce_tokens_below_limit docs D g = Inr (take m docs)"
       "doc_tokens g (take m docs) \<le> D"
       "\<forall>j. m < j \<and> j \<le> length docs \<longrightarrow> D < doc_tokens g (take j docs)"
    by auto
  have one: "1 \<le> length docs" using assms(1) by (cases docs) simp_all
  have "take m docs \<noteq> [] \<longleftrightarrow> g (page_content (hd docs)) \<le> D"
  proof
    assume "take m docs \<noteq> []"
    then have "1 \<le> m" by (cases m) simp_all
    then have "doc_tokens g (take 1 docs) \<le> doc_tokens g (take m docs)"
      using assms(3) by (rule doc_tokens_mono [rotated])
    then show "g (page_content (hd docs)) \<le> D"
      using m(3) assms(1) by (simp add: doc_tokens_take_1)
  next
    assume fits: "g (page_content (hd docs)) \<le> D"
    show "take m docs \<noteq> []"
    proof
      assume "take m docs = []"
      then have "m = 0" using assms(1) by simp
      then have "D < doc_tokens g (take 1 docs)" using m(4) one by simp
      then show False using fits assms(1) by (simp add: doc_tokens_take_1)
    qed
  qed
  with m show ?thesis by blast
qed

theorem reduce_nonempty_iff_first_fits_witness:
  "[passage ''p'', passage ''q''] \<noteq> [] \<and> (0::int) \<le> 50 \<and>
   0 \<le> flat_counter 40 (page_content (passage ''p'')) \<and>
   0 \<le> flat_counter 40 (page_content (passage ''q'')) \<and>
   reduce_tokens_below_limit [passage ''p'', passage ''q''] 50 (flat_counter 40) = Inr [passage ''p'']"
proof -
  let ?docs = "[passage ''p'', passage ''q'']"
  have h1: "?docs \<noteq> []" by simp
  have h2: "(0::int) \<le> 50" by simp
  have h3: "\<forall>doc\<in>set ?docs. 0 \<le> flat_counter 40 (page_content doc)"
    by (simp add: flat_counter_def)
  from reduce_nonempty_iff_first_fits [OF h1 h2 h3] obtain m where
    m: "m \<le> length ?docs" "reduce_tokens_below_limit ?docs 50 (flat_counter 40) = Inr (take m ?docs)"
       "doc_tokens (flat_counter 40) (take m ?docs) \<le> 50"
       "take m ?docs \<noteq> [] \<longleftrightarrow> flat_counter 40 (page_content (hd ?docs)) \<le> 50"
    by blast
  have "m \<noteq> 0" using m(4) by (auto simp: flat_counter_def)
  moreover have "m \<noteq> 2" using m(3) by (auto simp: doc_tokens_def flat_counter_def)
  ultimately have "m = 1" using m(1) by simp
  with m(2) h1 h2 h3 show ?thesis by simp
qed

text \<open>
  Claim C4: whenever some non-empty prefix of the passages fits the budget \<open>D\<close> (in
  particular a proper prefix of a list with more than one element), the routine drops
  passages from the tail only: its result is a non-empty prefix of the input, in the
  original order, whose total cost is at most \<open>D\<close>, and every longer prefix is over budget.
  With costs 30, 30, 30, 30 and \<open>D = 65\<close> exactly the first two passages survive.
\<close>

theorem reduce_keeps_longest_fitting_prefix:
  assumes "0 < k" and "k \<le> length docs" and "doc_tokens g (take k docs) \<le> D"
  shows "\<exists>m. k \<le> m \<and> m \<le> length docs \<and>
           reduce_tokens_below_limit docs D g = Inr (take m docs) \<and>
           take m docs \<noteq> [] \<and>
           doc_tokens g (take m docs) \<le> D \<and>
           (\<forall>j. m < j \<and> j \<le> length docs \<longrightarrow> D < doc_tokens g (take j docs))"
proof -
  from reduce_tokens_prefix [OF assms(2,3)] obtain m where
    m: "k \<le> m" "m \<le> length docs" "reduce_tokens_below_limit docs D g = Inr (take m docs)"
       "doc_tokens g (take m docs) \<le> D"
       "\<forall>j. m < j \<and> j \<le> length docs \<longrightarrow> D < doc_tokens g (take j docs)"
    by blast
  have "take m docs \<noteq> []" using m(1,2) assms(1) by auto
  with m show ?thesis by blast
qed

theorem reduce_keeps_longest_fitting_prefix_witness:
  "(0::nat) < 1 \<and> 1 \<le> length [passage ''a'', passage ''b'', passage ''c'', passage ''d''] \<and>
   doc_tokens (flat_counter 30) (take 1 [passage ''a'', passage ''b'', passage ''c'', passage ''d'']) \<le> 65 \<and>
   reduce_tokens_below_limit [passage ''a'', passage ''b'', passage ''c'', passage ''d''] 65
     (flat_counter 30) = Inr [passage ''a'', passage ''b'']"
proof -
  let ?docs = "[passage ''a'', passage ''b'', passage ''c'', passage ''d'']"
  have h1: "(0::nat) < 1" by simp
  have h2: "1 \<le> length ?docs" by simp
  have h3: "doc_tokens (flat_counter 30) (take 1 ?docs) \<le> 65"
    by (simp add: doc_tokens_def flat_counter_def)
  from reduce_keeps_longest_fitting_prefix [OF h1 h2 h3] obtain m where
    m: "1 \<le> m" "m \<le> length ?docs"
       "reduce_tokens_below_limit ?docs 65 (flat_counter 30) = Inr (take m ?docs)"
       "doc_tokens (flat_counter 30) (take m ?docs) \<le> 65"
       "\<forall>j. m < j \<and> j \<le> length ?docs \<longrightarrow> 65 < doc_tokens (flat_counter 30) (take j ?docs)"
    by blast
  have "m \<noteq> 1"
  proof
    assume "m = 1"
    with m(5) [rule_format, of 2] have "65 < doc_tokens (flat_counter 30) (take 2 ?docs)"
      by simp
    then show False by (simp add: doc_tokens_def flat_counter_def)
  qed
  moreover have "m \<noteq> 3" using m(4) by (auto simp: doc_tokens_def flat_counter_def numeral_3_eq_3)
  moreover have "m \<noteq> 4" using m(4) by (auto simp: doc_tokens_def flat_counter_def)
  ultimately have "m = 2" using m(1,2) by simp
  with m(3) h1 h2 h3 show ?thesis by (simp add: numeral_2_eq_2)
qed

section \<open>Chat-history trimming\<close>

lemma history_tokens_Cons:
  "history_tokens g ho ai (p # ps) = pair_tokens g ho ai p + history_tokens g ho ai ps"
  by (simp add: history_tokens_def)

lemma history_tokens_Nil: "history_tokens g ho ai [] = 0"
  by (simp add: history_tokens_def)

lemma format_messages_loop_break:
  assumes "L < used + pair_tokens g ho ai p"
  shows "format_messages_loop g ho ai L (p # rest) used acc = acc"
  using assms by (cases p) (auto simp: Let_def)

lemma format_messages_loop_continue:
  assumes "\<not> L < used + pair_tokens g ho ai p"
  shows "format_messages_loop g ho ai L (p # rest) used acc =
         format_messages_loop g ho ai L rest (used + pair_tokens g ho ai p)
           (acc @ [clean_pair ho ai p])"
  using assms by (cases p) (auto simp: Let_def add.assoc)

text \<open>
  The loop accepts a prefix of the history: every accepted pair kept the running total
  within the budget, and the first pair after the prefix, if there is one, would exceed it.
\<close>

lemma format_messages_loop_prefix:
  "\<exists>k\<le>length hist.
     format_messages_loop g ho ai L hist used acc = acc @ map (clean_pair ho ai) (take k hist) \<and>
     (\<forall>j. 0 < j \<and> j \<le> k \<longrightarrow> used + history_tokens g ho ai (take j hist) \<le> L) \<and>
     (k < length hist \<longrightarrow> L < used + history_tokens g ho ai (take (Suc k) hist))"
proof (induction hist arbitrary: used acc)
  case Nil
  then show ?case by simp
next
  case (Cons p rest)
  show ?case
  proof (cases "L < used + pair_tokens g ho ai p")
    case True
    then have "format_messages_loop g ho ai L (p # rest) used acc = acc"
      by (rule format_messages_loop_break)
    with True show ?thesis
      by (intro exI [of _ 0]) (simp add: history_tokens_Cons history_tokens_Nil)
  next
    case False
    let ?used = "used + pair_tokens g ho ai p"
    let ?acc = "acc @ [clean_pair ho ai p]"
    from Cons.IH [of ?used ?acc] obtain k where
      k: "k \<le> length rest"
         "format_messages_loop g ho ai L rest ?used ?acc = ?acc @ map (clean_pair ho ai) (take k rest)"
         "\<forall>j. 0 < j \<and> j \<le> k \<longrightarrow> ?used + history_tokens g ho ai (take j rest) \<le> L"
         "k < length rest \<longrightarrow> L < ?used + history_tokens g ho ai (take (Suc k) rest)"
      by blast
    have loop: "format_messages_loop g ho ai L (p # rest) used acc =
                acc @ map (clean_pair ho ai) (take (Suc k) (p # rest))"
      using format_messages_loop_continue [OF False] k(2) by simp
    have below: "used + history_tokens g ho ai (take j (p # rest)) \<le> L"
      if "0 < j \<and> j \<le> Suc k" for j
    proof (cases j)
      case 0
      with that show ?thesis by simp
    next
      case (Suc j')
      show ?thesis
      proof (cases "j' = 0")
        case True
        with Suc False show ?thesis
          by (simp add: history_tokens_Cons history_tokens_Nil)
      next
        case False
        with Suc that k(3) [rule_format, of j'] show ?thesis
          by (simp add: history_tokens_Cons add.assoc)
      qed
    qed
    have above: "Suc k < length (p # rest) \<longrightarrow>
                 L < used + history_tokens g ho ai (take (Suc (Suc k)) (p # rest))"
      using k(4) by (simp add: history_tokens_Cons add.assoc)
    from k(1) loop below above show ?thesis
      by (intro exI [of _ "Suc k"]) simp
  qed
qed

lemma human_line_clean_pair: "human_line (clean_pair True ai p) = pair_text True ai p"
  by (cases p) simp

lemma pair_lines_clean_pair: "pair_lines (clean_pair False ai p) = pair_text False ai p"
  by (cases p) simp

lemma render_clean_pairs:
  "(if ho then join nlnl (map human_line (map (clean_pair ho ai) ps))
    else join nlnl (map pair_lines (map (clean_pair ho ai) ps))) = serialize_pairs ho ai ps"
  by (cases ho) (simp_all add: serialize_pairs_def comp_def human_line_clean_pair pair_lines_clean_pair)

text \<open>In each mode the loop only produces the messages of that mode.\<close>

lemma format_messages_loop_shape:
  "set (format_messages_loop g ho ai L hist 0 []) \<subseteq> range (clean_pair ho ai)"
proof -
  from format_messages_loop_prefix [of hist g ho ai L 0 "[]"] obtain k where
    "format_messages_loop g ho ai L hist 0 [] = map (clean_pair ho ai) (take k hist)"
    by auto
  then show ?thesis by auto
qed

lemma join_Cons_nonempty: "x \<noteq> [] \<Longrightarrow> join sep (x # xs) \<noteq> []"
  by (cases xs) simp_all

lemma pair_text_nonempty: "pair_text ho ai p \<noteq> []"
  by (cases p) simp

text \<open>
  Claim C3: for every history, budget \<open>L\<close> and token counter, in either mode,
  \<open>format_messages\<close> includes exactly the first \<open>k\<close> pairs, where every non-empty prefix
  of at most \<open>k\<close> pairs has a total cost within \<open>L\<close> and, if a pair follows, including the
  pair after the prefix would exceed \<open>L\<close>; that pair and all later ones are left out,
  whatever they cost. With three pairs of 50 tokens each and \<open>L = 120\<close> the result is
  exactly the first two pairs.
\<close>

theorem format_messages_stops_at_first_overflow:
  "\<exists>k\<le>length chat_history.
     format_messages_loop g ho ai L chat_history 0 [] =
       map (clean_pair ho ai) (take k chat_history) \<and>
     format_messages chat_history L g ho ai = serialize_pairs ho ai (take k chat_history) \<and>
     (\<forall>j. 0 < j \<and> j \<le> k \<longrightarrow> history_tokens g ho ai (take j chat_history) \<le> L) \<and>
     (k < length chat_history \<longrightarrow> L < history_tokens g ho ai (take (Suc k) chat_history))"
proof -
  from format_messages_loop_prefix [of chat_history g ho ai L 0 "[]"] obtain k where
    k: "k \<le> length chat_history"
       "format_messages_loop g ho ai L chat_history 0 [] =
          map (clean_pair ho ai) (take k chat_history)"
       "\<forall>j. 0 < j \<and> j \<le> k \<longrightarrow> history_tokens g ho ai (take j chat_history) \<le> L"
       "k < length chat_history \<longrightarrow> L < history_tokens g ho ai (take (Suc k) chat_history)"
    by auto
  have "format_messages chat_history L g ho ai = serialize_pairs ho ai (take k chat_history)"
    unfolding format_messages_def Let_def k(2) by (rule render_clean_pairs)
  with k show ?thesis by blast
qed

theorem format_messages_stops_at_first_overflow_witness:
  "format_messages_loop (flat_counter 25) False ''AgritechAI'' 120
     [(''a'', ''b''), (''c'', ''d''), (''e'', ''f'')] 0 [] =
     [PairLines ''Human: a'' ''AgritechAI: b'', PairLines ''Human: c'' ''AgritechAI: d''] \<and>
   format_messages [(''a'', ''b''), (''c'', ''d''), (''e'', ''f'')] 120 (flat_counter 25) False
     ''AgritechAI'' =
     serialize_pairs False ''AgritechAI'' [(''a'', ''b''), (''c'', ''d'')]"
proof -
  let ?h = "[(''a'', ''b''), (''c'', ''d''), (''e'', ''f'')]"
  let ?g = "flat_counter 25"
  let ?ai = "''AgritechAI''"
  from format_messages_stops_at_first_overflow [of ?h ?g False ?ai 120] obtain k where
    k: "k \<le> length ?h"
       "format_messages_loop ?g False ?ai 120 ?h 0 [] = map (clean_pair False ?ai) (take k ?h)"
       "format_messages ?h 120 ?g False ?ai = serialize_pairs False ?ai (take k ?h)"
       "\<forall>j. 0 < j \<and> j \<le> k \<longrightarrow> history_tokens ?g False ?ai (take j ?h) \<le> 120"
       "k < length ?h \<longrightarrow> 120 < history_tokens ?g False ?ai (take (Suc k) ?h)"
    by blast
  have "k \<noteq> 3"
    using k(4) [rule_format, of 3]
    by (auto simp: history_tokens_def flat_counter_def)
  moreover have "k \<noteq> 0"
  proof
    assume "k = 0"
    with k(5) show False by (simp add: history_tokens_def flat_counter_def)
  qed
  moreover have "k \<noteq> 1"
  proof
    assume "k = 1"
    with k(5) show False by (simp add: history_tokens_def flat_counter_def)
  qed
  ultimately have "k = 2" using k(1) by simp
  with k(2,3) show ?thesis by (simp add: numeral_2_eq_2)
qed

text \<open>
  Claim C8, as stated, fails: with a token counter that charges nothing, a pair is
  within the budget \<open>L = 0\<close> (the test is \<open>new_tokens_used > tokens_limit\<close>) and is included.
\<close>

theorem format_messages_zero_budget_zero_cost:
  "format_messages [(''hi'', ''hello'')] 0 (flat_counter 0) False ''AgritechAI'' \<noteq> []"
  by (simp add: format_messages_def flat_counter_def Let_def)

text \<open>
  Claim C8, amended: with budget \<open>L = 0\<close>, \<open>format_messages\<close> returns the empty string
  exactly when the history is empty or the first pair has a positive token cost; so it
  returns the empty string for every token counter that charges a positive cost for the
  first pair.
\<close>

theorem format_messages_zero_budget:
  "format_messages chat_history 0 g ho ai = [] \<longleftrightarrow>
     (chat_history = [] \<or> 0 < pair_tokens g ho ai (hd chat_history))"
proof (cases chat_history)
  case Nil
  then show ?thesis by (simp add: format_messages_def)
next
  case (Cons p rest)
  show ?thesis
  proof (cases "0 < pair_tokens g ho ai p")
    case True
    then have "format_messages_loop g ho ai 0 (p # rest) 0 [] = []"
      by (intro format_messages_loop_break) simp
    with True Cons show ?thesis by (simp add: format_messages_def)
  next
    case False
    then have step: "format_messages_loop g ho ai 0 (p # rest) 0 [] =
        format_messages_loop g ho ai 0 rest (0 + pair_tokens g ho ai p) ([] @ [clean_pair ho ai p])"
      by (intro format_messages_loop_continue) simp
    from format_messages_loop_prefix
      [of rest g ho ai 0 "0 + pair_tokens g ho ai p" "[] @ [clean_pair ho ai p]"]
    obtain k where
      "format_messages_loop g ho ai 0 rest (0 + pair_tokens g ho ai p) ([] @ [clean_pair ho ai p]) =
         ([] @ [clean_pair ho ai p]) @ map (clean_pair ho ai) (take k rest)"
      by blast
    with step have loop: "format_messages_loop g ho ai 0 (p # rest) 0 [] =
        map (clean_pair ho ai) (p # take k rest)"
      by simp
    have "format_messages (p # rest) 0 g ho ai = serialize_pairs ho ai (p # take k rest)"
      unfolding format_messages_def Let_def loop by (rule render_clean_pairs)
    then have "format_messages (p # rest) 0 g ho ai \<noteq> []"
      by (simp add: serialize_pairs_def join_Cons_nonempty pair_text_nonempty)
    with False Cons show ?thesis by simp
  qed
qed

theorem format_messages_zero_budget_witness:
  "format_messages [(''hi'', ''hello'')] 0 (flat_counter 3) False ''AgritechAI'' = [] \<and>
   0 < pair_tokens (flat_counter 3) False ''AgritechAI'' (''hi'', ''hello'')"
  using format_messages_zero_budget
    [of "[(''hi'', ''hello'')]" "flat_counter 3" False "''AgritechAI''"]
  by (simp add: flat_counter_def)

section \<open>The conversation log\<close>

lemma first_row_None_iff: "first_row xs = None \<longleftrightarrow> xs = []"
  by (cases xs) simp_all

lemma first_row_hd: "xs \<noteq> [] \<Longrightarrow> first_row xs = Some (hd xs)"
  by (cases xs) simp_all

lemma hd_sort_key_least:
  assumes "xs \<noteq> []"
  shows "hd (sort_key f xs) \<in> set xs \<and> (\<forall>x\<in>set xs. f (hd (sort_key f xs)) \<le> f x)"
proof -
  have ne: "sort_key f xs \<noteq> []"
    using assms by (metis length_0_conv length_sort)
  then obtain y ys where ys: "sort_key f xs = y # ys" by (cases "sort_key f xs") auto
  have "sorted (map f (y # ys))" using sorted_sort_key [of f xs] ys by simp
  then have "\<forall>z\<in>set (y # ys). f y \<le> f z" by auto
  moreover have "set (y # ys) = set xs" using set_sort [of f xs] ys by simp
  ultimately show ?thesis using ys by auto
qed

lemma last_message_empty:
  "select_namespace db ns = [] \<Longrightarrow> last_message db ns = None"
  by (simp add: last_message_def)

lemma last_message_greatest:
  assumes "select_namespace db ns \<noteq> []"
  shows "\<exists>m. last_message db ns = Some m \<and> m \<in> set (select_namespace db ns) \<and>
           (\<forall>x\<in>set (select_namespace db ns). sequence_number x \<le> sequence_number m)"
proof -
  let ?rows = "select_namespace db ns"
  let ?f = "\<lambda>m. - sequence_number m"
  have ne: "sort_key ?f ?rows \<noteq> []"
    using assms by (metis length_0_conv length_sort)
  from hd_sort_key_least [OF assms, of ?f]
  have "hd (sort_key ?f ?rows) \<in> set ?rows"
    and "\<forall>x\<in>set ?rows. sequence_number x \<le> sequence_number (hd (sort_key ?f ?rows))"
    by auto
  moreover have "last_message db ns = Some (hd (sort_key ?f ?rows))"
    unfolding last_message_def using ne by (rule first_row_hd)
  ultimately show ?thesis by blast
qed

lemma Max_greatest_row:
  assumes "m \<in> set rows" and "\<forall>x\<in>set rows. sequence_number x \<le> sequence_number m"
  shows "Max (sequence_number ` set rows) = sequence_number m"
  using assms by (intro Max_eqI) auto

text \<open>\<open>add_message\<close> follows the rule of the specification for the next number.\<close>

lemma add_message_next:
  "add_message db ns ai human =
     db @ [\<lparr>ai_message = ai, human_message = human,
             sequence_number = next_sequence_number db ns, namespace = ns\<rparr>]"
proof (cases "select_namespace db ns = []")
  case True
  then show ?thesis
    by (simp add: add_message_def last_message_empty next_sequence_number_def)
next
  case False
  from last_message_greatest [OF False] obtain m where
    m: "last_message db ns = Some m" "m \<in> set (select_namespace db ns)"
       "\<forall>x\<in>set (select_namespace db ns). sequence_number x \<le> sequence_number m"
    by blast
  have "Max (sequence_number ` set (select_namespace db ns)) = sequence_number m"
    using m(2,3) by (rule Max_greatest_row)
  with False m(1) show ?thesis
    by (simp add: add_message_def next_sequence_number_def)
qed

lemma next_sequence_number_run:
  assumes "map sequence_number (select_namespace db ns) = map int [0..<k]"
  shows "next_sequence_number db ns = int k"
proof (cases k)
  case 0
  with assms show ?thesis by (simp add: next_sequence_number_def)
next
  case (Suc k')
  have "sequence_number ` set (select_namespace db ns) = int ` {0..<k}"
    using assms by (metis list.set_map set_upt)
  moreover have "Max (int ` {0..<Suc k'}) = int k'"
    by (intro Max_eqI) auto
  moreover have "select_namespace db ns \<noteq> []" using assms Suc by auto
  ultimately show ?thesis using Suc by (simp add: next_sequence_number_def)
qed

lemma select_namespace_append:
  "select_namespace (db @ [r]) ns =
     (if namespace r = ns then select_namespace db ns @ [r] else select_namespace db ns)"
  by (simp add: select_namespace_def)

lemma turns_of_Cons:
  "turns_of ((n, a, h) # turns) ns = (if n = ns then (n, a, h) # turns_of turns ns else turns_of turns ns)"
  by (simp add: turns_of_def)

text \<open>
  The invariant of the log: while the numbers of a namespace are the run \<open>0..<k\<close>, the
  appends to it extend the run, and appends to other namespaces leave it alone.
\<close>

lemma append_all_rows:
  assumes "map sequence_number (select_namespace db ns) = map int [0..<k]"
  shows "select_namespace (append_all db turns) ns =
         select_namespace db ns @ map turn_row (enumerate k (turns_of turns ns))"
  using assms
proof (induction turns arbitrary: db k)
  case Nil
  then show ?case by (simp add: turns_of_def)
next
  case (Cons turn turns)
  obtain n a h where turn: "turn = (n, a, h)" by (cases turn) auto
  let ?db = "add_message db n a h"
  show ?case
  proof (cases "n = ns")
    case True
    have db': "?db = db @ [turn_row (k, ns, a, h)]"
      using next_sequence_number_run [OF Cons.prems] True
      by (simp add: add_message_next turn_row_def)
    have sel: "select_namespace ?db ns = select_namespace db ns @ [turn_row (k, ns, a, h)]"
      by (simp add: db' select_namespace_append turn_row_def)
    have "map sequence_number (select_namespace ?db ns) = map int [0..<Suc k]"
      using Cons.prems by (simp add: sel turn_row_def)
    from Cons.IH [OF this] sel True turn show ?thesis
      by (simp add: turns_of_Cons)
  next
    case False
    have sel: "select_namespace ?db ns = select_namespace db ns"
      using False by (simp add: add_message_next select_namespace_append)
    with Cons.prems have "map sequence_number (select_namespace ?db ns) = map int [0..<k]"
      by simp
    from Cons.IH [OF this] sel False turn show ?thesis
      by (simp add: turns_of_Cons)
  qed
qed

lemma sequence_number_turn_rows:
  "map sequence_number (map turn_row (enumerate k ts)) = map int [k..<k + length ts]"
proof -
  have "map sequence_number (map turn_row its) = map int (map fst its)" for its
    by (simp add: turn_row_def comp_def)
  then have "map sequence_number (map turn_row (enumerate k ts)) =
             map int (map fst (enumerate k ts))" .
  also have "map fst (enumerate k ts) = [k..<k + length ts]"
    by (rule map_fst_enumerate)
  finally show ?thesis .
qed

lemma select_namespace_none: "(\<forall>m\<in>set db. namespace m \<noteq> ns) \<Longrightarrow> select_namespace db ns = []"
  by (simp add: select_namespace_def)

text \<open>
  Claim C2: starting from a table without rows of the namespace, after any list of appends
  performed one after another, the rows of the namespace are, in append order, the
  appended turns numbered 0, 1, 2, ...: the sequence numbers are exactly \<open>0..<N\<close> for \<open>N\<close>
  appends to the namespace, without gaps or duplicates. Each \<open>add_message\<close> stores 0 when
  the namespace has no rows and otherwise 1 plus the greatest sequence number of the
  namespace.
\<close>

theorem add_message_numbers_run:
  assumes "\<forall>m\<in>set db. namespace m \<noteq> ns"
  shows "select_namespace (append_all db turns) ns = map turn_row (enumerate 0 (turns_of turns ns)) \<and>
         map sequence_number (select_namespace (append_all db turns) ns) =
           map int [0..<length (turns_of turns ns)] \<and>
         add_message db' ns' ai human =
           db' @ [\<lparr>ai_message = ai, human_message = human,
                   sequence_number = next_sequence_number db' ns', namespace = ns'\<rparr>]"
proof -
  have empty: "select_namespace db ns = []"
    using assms by (rule select_namespace_none)
  then have "map sequence_number (select_namespace db ns) = map int [0..<0]" by simp
  from append_all_rows [OF this, of turns] empty
  have rows: "select_namespace (append_all db turns) ns =
              map turn_row (enumerate 0 (turns_of turns ns))"
    by simp
  have "map sequence_number (select_namespace (append_all db turns) ns) =
        map int [0..<length (turns_of turns ns)]"
    unfolding rows using sequence_number_turn_rows [of 0 "turns_of turns ns"] by simp
  with rows show ?thesis by (simp add: add_message_next)
qed

theorem add_message_numbers_run_witness:
  "map sequence_number (select_namespace (append_all [] three_turns) ''u1'') = [0, 1] \<and>
   select_namespace (append_all [] three_turns) ''u1'' =
     [\<lparr>ai_message = ''hello'', human_message = ''hi'', sequence_number = 0, namespace = ''u1''\<rparr>,
      \<lparr>ai_message = ''bye'', human_message = ''thanks'', sequence_number = 1, namespace = ''u1''\<rparr>]"
proof -
  have h: "\<forall>m\<in>set ([] :: chat_table). namespace m \<noteq> ''u1''" by simp
  have t: "turns_of three_turns ''u1'' = [(''u1'', ''hello'', ''hi''), (''u1'', ''bye'', ''thanks'')]"
    by (simp add: turns_of_def three_turns_def)
  from add_message_numbers_run [OF h, of three_turns] show ?thesis
    by (simp add: t turn_row_def)
qed

text \<open>A list with the same elements as a two-element list is that list or its reverse.\<close>

lemma mset_two_cases:
  assumes "mset xs = mset [a, b]"
  shows "xs = [a, b] \<or> xs = [b, a]"
proof -
  have "length xs = 2" using mset_eq_length [OF assms] by simp
  then obtain x y where xs: "xs = [x, y]"
    by (cases xs; cases "tl xs") auto
  with assms have "{#x, y#} = {#a, b#}" by simp
  then have "(x = a \<and> y = b) \<or> (x = b \<and> y = a)"
    by (auto simp: add_eq_conv_ex)
  with xs show ?thesis by auto
qed

text \<open>
  Claim C7: \<open>retrieve_all_messages\<close> returns the pairs (human text, assistant text) of
  exactly the rows whose namespace is the given one, each row once, in ascending order of
  their sequence numbers, and for a namespace without rows it returns the empty list; it
  has no failing branch.
\<close>

theorem retrieve_all_messages_sorted:
  "(\<exists>rows. mset rows = mset (filter (\<lambda>m. namespace m = ns) db) \<and>
           sorted (map sequence_number rows) \<and>
           retrieve_all_messages db ns = map (\<lambda>row. (human_message row, ai_message row)) rows) \<and>
   ((\<forall>m\<in>set db. namespace m \<noteq> ns) \<longrightarrow> retrieve_all_messages db ns = [])"
proof -
  let ?rows = "sort_key sequence_number (filter (\<lambda>m. namespace m = ns) db)"
  have "mset ?rows = mset (filter (\<lambda>m. namespace m = ns) db)" by simp
  moreover have "sorted (map sequence_number ?rows)" by (rule sorted_sort_key)
  moreover have "retrieve_all_messages db ns =
                 map (\<lambda>row. (human_message row, ai_message row)) ?rows"
    by (simp add: retrieve_all_messages_def select_namespace_def message_pair_def)
  moreover have "(\<forall>m\<in>set db. namespace m \<noteq> ns) \<longrightarrow> retrieve_all_messages db ns = []"
    by (simp add: retrieve_all_messages_def select_namespace_none)
  ultimately show ?thesis by blast
qed

theorem retrieve_all_messages_sorted_witness:
  "retrieve_all_messages shuffled_log ''u1'' = [(''hi'', ''hello''), (''thanks'', ''bye'')] \<and>
   retrieve_all_messages shuffled_log ''u3'' = []"
proof -
  let ?r1 = "\<lparr>ai_message = ''bye'', human_message = ''thanks'', sequence_number = 1,
              namespace = ''u1''\<rparr>"
  let ?r0 = "\<lparr>ai_message = ''hello'', human_message = ''hi'', sequence_number = 0,
              namespace = ''u1''\<rparr>"
  have sel: "filter (\<lambda>m. namespace m = ''u1'') shuffled_log = [?r1, ?r0]"
    by (simp add: shuffled_log_def)
  from retrieve_all_messages_sorted [of "''u1''" shuffled_log] obtain rows where
    rows: "mset rows = mset (filter (\<lambda>m. namespace m = ''u1'') shuffled_log)"
          "sorted (map sequence_number rows)"
          "retrieve_all_messages shuffled_log ''u1'' =
             map (\<lambda>row. (human_message row, ai_message row)) rows"
    by blast
  from rows(1) have "rows = [?r1, ?r0] \<or> rows = [?r0, ?r1]"
    unfolding sel by (rule mset_two_cases)
  moreover have "rows \<noteq> [?r1, ?r0]" using rows(2) by auto
  ultimately have "rows = [?r0, ?r1]" by simp
  with rows(3) have first: "retrieve_all_messages shuffled_log ''u1'' =
      [(''hi'', ''hello''), (''thanks'', ''bye'')]"
    by simp
  have none: "\<forall>m\<in>set shuffled_log. namespace m \<noteq> ''u3''"
    by (simp add: shuffled_log_def)
  from retrieve_all_messages_sorted [of "''u3''" shuffled_log] none
  have "retrieve_all_messages shuffled_log ''u3'' = []" by blast
  with first show ?thesis by simp
qed

section \<open>The file registry\<close>

lemma select_filename_none:
  "(\<forall>r\<in>set db. row_filename r \<noteq> name) \<Longrightarrow> select_filename db name = []"
  by (simp add: select_filename_def)

lemma select_filename_some:
  "r \<in> set db \<Longrightarrow> row_filename r = name \<Longrightarrow> select_filename db name \<noteq> []"
  by (auto simp: select_filename_def filter_empty_conv)

lemma file_to_pydantic_inverse:
  "file_bytes fm = Some b \<Longrightarrow> file_to_pydantic (pydantic_to_file fm) = Inr fm"
  by (simp add: file_to_pydantic_def pydantic_to_file_def)

lemma file_to_pydantic_with_bytes:
  "row_file_bytes r \<noteq> None \<Longrightarrow> \<exists>fm. file_to_pydantic r = Inr fm"
  by (cases "row_file_bytes r") (simp_all add: file_to_pydantic_def)

lemma file_to_pydantic_without_bytes:
  "row_file_bytes r = None \<Longrightarrow> file_to_pydantic r = Inl TypeError"
  by (simp add: file_to_pydantic_def)

text \<open>The round trip of a record whose bytes payload is present.\<close>

lemma add_file_then_get:
  assumes "\<forall>r\<in>set db. row_filename r \<noteq> filename fm" and "file_bytes fm = Some b"
  shows "add_file db fm = (Inr fm, db @ [pydantic_to_file fm]) \<and>
         get_file_by_name (db @ [pydantic_to_file fm]) (filename fm) = Inr (Some fm)"
proof -
  have none: "select_filename db (filename fm) = []"
    using assms(1) by (rule select_filename_none)
  have add: "add_file db fm = (Inr fm, db @ [pydantic_to_file fm])"
    using none file_to_pydantic_inverse [OF assms(2)] by (simp add: add_file_def Let_def)
  have "select_filename (db @ [pydantic_to_file fm]) (filename fm) = [pydantic_to_file fm]"
    using none by (simp add: select_filename_def pydantic_to_file_def)
  then have "get_file_by_name (db @ [pydantic_to_file fm]) (filename fm) = Inr (Some fm)"
    using file_to_pydantic_inverse [OF assms(2)] by (simp add: get_file_by_name_def)
  with add show ?thesis by simp
qed

text \<open>
  Claim C6: for every table and every record whose filename is the filename of a stored
  row, \<open>add_file\<close> fails with the error the specification calls DuplicateKeyError, which in
  the source is \<^verbatim>\<open>ValueError("File already exists")\<close>, and the table, with it the stored
  row, is unchanged.
\<close>

theorem add_file_duplicate_rejected:
  assumes "r \<in> set db" and "row_filename r = filename fm"
  shows "add_file db fm = (Inl (ValueError ''File already exists''), db)"
proof -
  have "select_filename db (filename fm) \<noteq> []"
    using assms by (rule select_filename_some)
  then have "first_row (select_filename db (filename fm)) \<noteq> None"
    by (simp add: first_row_None_iff)
  then show ?thesis by (simp add: add_file_def Let_def)
qed

theorem add_file_duplicate_rejected_witness:
  "add_file [] report = (Inr report, [pydantic_to_file report]) \<and>
   row_filename (pydantic_to_file report) = filename report \<and>
   add_file [pydantic_to_file report] report =
     (Inl (ValueError ''File already exists''), [pydantic_to_file report])"
proof -
  have a: "pydantic_to_file report \<in> set [pydantic_to_file report]" by simp
  have b: "row_filename (pydantic_to_file report) = filename report"
    by (simp add: pydantic_to_file_def)
  have "add_file [] report = (Inr report, [pydantic_to_file report])"
    by (simp add: add_file_def select_filename_def file_to_pydantic_def pydantic_to_file_def
        report_def)
  with b add_file_duplicate_rejected [OF a b] show ?thesis by simp
qed

text \<open>
  \<open>delete_file\<close> where the lookup does not raise: no row with the filename gives the
  error the specification calls NotFoundError, in the source
  \<^verbatim>\<open>ValueError("Invalid collection/file")\<close>, and leaves the table unchanged; a first row
  with a bytes payload gives the number of rows with the filename, all of them removed.
  While the filenames of the table are distinct, a returned count is 1.
\<close>

lemma filter_key_distinct:
  "distinct (map f xs) \<Longrightarrow> length (filter (\<lambda>x. f x = a) xs) \<le> 1"
proof (induction xs)
  case Nil
  then show ?case by simp
next
  case (Cons x xs)
  show ?case
  proof (cases "f x = a")
    case True
    then have "a \<notin> f ` set xs" using Cons.prems by auto
    then have "filter (\<lambda>x. f x = a) xs = []" by (auto simp: filter_empty_conv)
    with True show ?thesis by simp
  next
    case False
    with Cons show ?thesis by simp
  qed
qed

lemma delete_file_missing:
  assumes "\<forall>r\<in>set db. row_filename r \<noteq> name"
  shows "delete_file db name = (Inl (ValueError ''Invalid collection/file''), db)"
proof -
  have "select_filename db name = []" using assms by (rule select_filename_none)
  then show ?thesis by (simp add: delete_file_def get_file_by_name_def)
qed

lemma delete_file_found:
  assumes "first_row (select_filename db name) = Some r" and "row_file_bytes r \<noteq> None"
  shows "delete_file db name =
           (Inr (int (length (select_filename db name))),
            filter (\<lambda>r. row_filename r \<noteq> name) db)"
proof -
  obtain fm where "file_to_pydantic r = Inr fm"
    using assms(2) file_to_pydantic_with_bytes by blast
  with assms(1) have "get_file_by_name db name = Inr (Some fm)"
    by (simp add: get_file_by_name_def)
  then show ?thesis by (simp add: delete_file_def)
qed

lemma delete_file_count_unique:
  assumes "distinct (map row_filename db)" and "fst (delete_file db name) = Inr c"
  shows "c = 1 \<and> select_filename (snd (delete_file db name)) name = []"
proof -
  from assms(2) have c: "c = int (length (select_filename db name))"
    and ne: "select_filename db name \<noteq> []"
    and db': "snd (delete_file db name) = filter (\<lambda>r. row_filename r \<noteq> name) db"
    by (auto simp: delete_file_def get_file_by_name_def
        split: sum.splits option.splits)
  have "length (select_filename db name) \<le> 1"
    unfolding select_filename_def using assms(1) by (rule filter_key_distinct)
  moreover have "1 \<le> length (select_filename db name)"
    using ne by (cases "select_filename db name") simp_all
  ultimately have "c = 1" using c by simp
  then show ?thesis by (simp add: db' select_filename_def)
qed

text \<open>
  Claim C9 on the code: \<open>add_file\<close> of a record without a bytes payload leaves its row in
  the table, under a filename stored once. \<open>delete_file\<close> of that filename raises
  TypeError in the lookup that precedes the delete query, returns no count and removes
  nothing, although a record with the filename exists.
\<close>

theorem delete_file_without_bytes_raises:
  "snd (add_file [] field_notes) = [pydantic_to_file field_notes] \<and>
   filename field_notes = ''notes.txt'' \<and>
   delete_file (snd (add_file [] field_notes)) ''notes.txt'' =
     (Inl TypeError, snd (add_file [] field_notes))"
  by (simp add: add_file_def get_file_by_name_def delete_file_def select_filename_def
      file_to_pydantic_def pydantic_to_file_def field_notes_def)

text \<open>
  Claim C10 on the code: for a record whose bytes payload is None, \<open>add_file\<close> saves the
  row and then raises TypeError in \<open>file_to_pydantic\<close>, which applies \<^verbatim>\<open>bytes\<close> to None;
  \<open>get_file_by_name\<close> on the saved row raises the same error, and so does \<open>delete_file\<close>.
  The record type and the table both declare the payload optional.
\<close>

theorem add_file_without_bytes_raises:
  "add_file [] field_notes = (Inl TypeError, [pydantic_to_file field_notes]) \<and>
   get_file_by_name [pydantic_to_file field_notes] ''notes.txt'' = Inl TypeError \<and>
   delete_file [pydantic_to_file field_notes] ''notes.txt'' =
     (Inl TypeError, [pydantic_to_file field_notes])"
  by (simp add: add_file_def get_file_by_name_def delete_file_def select_filename_def
      file_to_pydantic_def pydantic_to_file_def field_notes_def)

section \<open>A turn of the responder\<close>

text \<open>\<open>chat\<close> fails with the error of the collaborator that fails.\<close>

lemma chat_retrieval_failure:
  assumes "vectorstore_similarity_search km
             (format_messages chat_history (conversattion_limit km) (llm_get_num_tokens km)
                True ''AgritechAI'' @ nl @ ''Human: '' @ query) collection_name = Inl e"
  shows "chat km query chat_history collection_name = Inl e"
  using assms by (simp add: chat_def query_data_def Let_def)

lemma chat_model_failure:
  assumes "vectorstore_similarity_search km
             (format_messages chat_history (conversattion_limit km) (llm_get_num_tokens km)
                True ''AgritechAI'' @ nl @ ''Human: '' @ query) collection_name = Inr docs"
    and "reduce_tokens_below_limit docs (docs_limit km) (llm_get_num_tokens km) = Inr kept"
    and "chain_arun km query
           (format_messages chat_history (conversattion_limit km) (llm_get_num_tokens km)
              False ''AgritechAI'')
           (join nlnl (map page_content kept)) = Inl e"
  shows "chat km query chat_history collection_name = Inl e"
  using assms by (simp add: chat_def query_data_def Let_def)

text \<open>A turn that succeeds appends its pair.\<close>

lemma generate_response_success:
  "chat km text (retrieve_all_messages db user_id) ''data'' = Inr ai_response \<Longrightarrow>
   generate_response km db text user_id = (Inr ai_response, add_message db user_id ai_response text)"
  by (simp add: generate_response_def)

text \<open>
  Claim C5: whenever \<open>chat\<close> fails, \<open>generate_response\<close> returns that error and the table
  it was given, with nothing appended; in particular when the similarity search of the
  turn fails, and when the search and the trimming succeed and the model call of the turn
  fails.
\<close>

theorem failed_turn_is_not_appended:
  "(chat km text (retrieve_all_messages db user_id) ''data'' = Inl e \<longrightarrow>
      generate_response km db text user_id = (Inl e, db)) \<and>
   (vectorstore_similarity_search km
      (format_messages (retrieve_all_messages db user_id) (conversattion_limit km)
         (llm_get_num_tokens km) True ''AgritechAI'' @ nl @ ''Human: '' @ text) ''data'' = Inl e \<longrightarrow>
      generate_response km db text user_id = (Inl e, db)) \<and>
   (vectorstore_similarity_search km
      (format_messages (retrieve_all_messages db user_id) (conversattion_limit km)
         (llm_get_num_tokens km) True ''AgritechAI'' @ nl @ ''Human: '' @ text) ''data'' = Inr docs \<and>
    reduce_tokens_below_limit docs (docs_limit km) (llm_get_num_tokens km) = Inr kept \<and>
    chain_arun km text
      (format_messages (retrieve_all_messages db user_id) (conversattion_limit km)
         (llm_get_num_tokens km) False ''AgritechAI'')
      (join nlnl (map page_content kept)) = Inl e \<longrightarrow>
      generate_response km db text user_id = (Inl e, db))"
proof (intro conjI impI)
  assume "chat km text (retrieve_all_messages db user_id) ''data'' = Inl e"
  then show "generate_response km db text user_id = (Inl e, db)"
    by (simp add: generate_response_def)
next
  assume "vectorstore_similarity_search km
      (format_messages (retrieve_all_messages db user_id) (conversattion_limit km)
         (llm_get_num_tokens km) True ''AgritechAI'' @ nl @ ''Human: '' @ text) ''data'' = Inl e"
  then have "chat km text (retrieve_all_messages db user_id) ''data'' = Inl e"
    by (rule chat_retrieval_failure)
  then show "generate_response km db text user_id = (Inl e, db)"
    by (simp add: generate_response_def)
next
  assume a: "vectorstore_similarity_search km
      (format_messages (retrieve_all_messages db user_id) (conversattion_limit km)
         (llm_get_num_tokens km) True ''AgritechAI'' @ nl @ ''Human: '' @ text) ''data'' = Inr docs \<and>
    reduce_tokens_below_limit docs (docs_limit km) (llm_get_num_tokens km) = Inr kept \<and>
    chain_arun km text
      (format_messages (retrieve_all_messages db user_id) (conversattion_limit km)
         (llm_get_num_tokens km) False ''AgritechAI'')
      (join nlnl (map page_content kept)) = Inl e"
  have "chat km text (retrieve_all_messages db user_id) ''data'' = Inl e"
    using a by (intro chat_model_failure [of km _ "text" "''data''" docs kept e]) simp_all
  then show "generate_response km db text user_id = (Inl e, db)"
    by (simp add: generate_response_def)
qed

lemma reduce_one_passage_fits:
  "reduce_tokens_below_limit [passage ''Wheat needs nitrogen.''] 3000 (flat_counter 10) =
     Inr [passage ''Wheat needs nitrogen.'']"
  by (simp add: reduce_tokens_below_limit_def slice_to_def flat_counter_def reduce_loop_stop)

theorem failed_turn_is_not_appended_witness:
  "generate_response km_search_down (append_all [] three_turns) ''and rice?'' ''u1'' =
     (Inl (CollaboratorError ''vector store down''), append_all [] three_turns) \<and>
   generate_response km_model_down (append_all [] three_turns) ''and rice?'' ''u1'' =
     (Inl (CollaboratorError ''model timeout''), append_all [] three_turns)"
proof -
  let ?db = "append_all [] three_turns"
  have s: "vectorstore_similarity_search km_search_down
      (format_messages (retrieve_all_messages ?db ''u1'') (conversattion_limit km_search_down)
         (llm_get_num_tokens km_search_down) True ''AgritechAI'' @ nl @ ''Human: '' @ ''and rice?'')
      ''data'' = Inl (CollaboratorError ''vector store down'')"
    by (simp add: km_search_down_def search_down_def)
  have m: "vectorstore_similarity_search km_model_down
      (format_messages (retrieve_all_messages ?db ''u1'') (conversattion_limit km_model_down)
         (llm_get_num_tokens km_model_down) True ''AgritechAI'' @ nl @ ''Human: '' @ ''and rice?'')
      ''data'' = Inr [passage ''Wheat needs nitrogen.''] \<and>
    reduce_tokens_below_limit [passage ''Wheat needs nitrogen.''] (docs_limit km_model_down)
      (llm_get_num_tokens km_model_down) = Inr [passage ''Wheat needs nitrogen.''] \<and>
    chain_arun km_model_down ''and rice?''
      (format_messages (retrieve_all_messages ?db ''u1'') (conversattion_limit km_model_down)
         (llm_get_num_tokens km_model_down) False ''AgritechAI'')
      (join nlnl (map page_content [passage ''Wheat needs nitrogen.''])) =
      Inl (CollaboratorError ''model timeout'')"
    using reduce_one_passage_fits by (simp add: km_model_down_def search_one_def model_down_def)
  from failed_turn_is_not_appended
    [of km_search_down "''and rice?''" ?db "''u1''" "CollaboratorError ''vector store down''"] s
  have one: "generate_response km_search_down ?db ''and rice?'' ''u1'' =
     (Inl (CollaboratorError ''vector store down''), ?db)"
    by blast
  from failed_turn_is_not_appended
    [of km_model_down "''and rice?''" ?db "''u1''" "CollaboratorError ''model timeout''"
        "[passage ''Wheat needs nitrogen.'']" "[passage ''Wheat needs nitrogen.'']"] m
  have "generate_response km_model_down ?db ''and rice?'' ''u1'' =
     (Inl (CollaboratorError ''model timeout''), ?db)"
    by blast
  with one show ?thesis by simp
qed

end
